theory Spec2Isabelle
  imports Main
begin

section \<open>Python strings\<close>

text \<open>
  A Python \<^verbatim>\<open>str\<close> is modelled as a \<^typ>\<open>string\<close>: a list of code points
  below 256, so \<^const>\<open>length\<close> is Python's \<^verbatim>\<open>len\<close>.
\<close>

definition isspace :: "char \<Rightarrow> bool" where
  \<comment> \<open>\<^verbatim>\<open>str.isspace\<close> on one code point below 256\<close>
  "isspace c = (of_char c \<in> {9, 10, 11, 12, 13, 28, 29, 30, 31, 32, 133, 160 :: nat})"

definition strip :: "string \<Rightarrow> string" where
  \<comment> \<open>\<^verbatim>\<open>s.strip()\<close>\<close>
  "strip s = rev (dropWhile isspace (rev (dropWhile isspace s)))"

definition lower_char :: "char \<Rightarrow> char" where
  "lower_char c =
     (let n = (of_char c :: nat)
      in if (65 \<le> n \<and> n \<le> 90) \<or> (192 \<le> n \<and> n \<le> 222 \<and> n \<noteq> 215)
         then char_of (n + 32) else c)"

definition lower :: "string \<Rightarrow> string" where
  \<comment> \<open>\<^verbatim>\<open>s.lower()\<close>\<close>
  "lower s = map lower_char s"

definition startswith :: "string \<Rightarrow> string \<Rightarrow> bool" where
  \<comment> \<open>\<^verbatim>\<open>s.startswith(p)\<close>\<close>
  "startswith s p = (take (length p) s = p)"

fun str_in :: "string \<Rightarrow> string \<Rightarrow> bool" where
  \<comment> \<open>\<^verbatim>\<open>p in s\<close>: \<open>p\<close> occurs in \<open>s\<close> as a contiguous substring\<close>
  "str_in p [] = (p = [])"
| "str_in p (c # s) = (startswith (c # s) p \<or> str_in p s)"

definition digit_char :: "nat \<Rightarrow> char" where
  "digit_char d = char_of (48 + d)"

fun str_of_nat :: "nat \<Rightarrow> string" where
  \<comment> \<open>\<^verbatim>\<open>str(n)\<close> for a non-negative \<^verbatim>\<open>int\<close>, as the f-strings format an index\<close>
  "str_of_nat n =
     (if n < 10 then [digit_char n] else str_of_nat (n div 10) @ [digit_char (n mod 10)])"

declare str_of_nat.simps [simp del]

definition truthy :: "string option \<Rightarrow> bool" where
  \<comment> \<open>the truth value of \<^verbatim>\<open>d.get(k)\<close>: neither \<^verbatim>\<open>None\<close> nor the empty string\<close>
  "truthy v = (case v of None \<Rightarrow> False | Some s \<Rightarrow> s \<noteq> [])"

fun join :: "string \<Rightarrow> string list \<Rightarrow> string" where
  \<comment> \<open>\<^verbatim>\<open>sep.join(parts)\<close>\<close>
  "join sep [] = []"
| "join sep [p] = p"
| "join sep (p # q # ps) = p @ sep @ join sep (q # ps)"

section \<open>The parsed document\<close>

text \<open>
  The tree that \<^verbatim>\<open>BeautifulSoup(page_source, 'html.parser')\<close> returns. \<open>Text\<close> is a
  string that \<^verbatim>\<open>get_text\<close> renders (a \<^verbatim>\<open>NavigableString\<close> or \<^verbatim>\<open>CData\<close>); \<open>Comment\<close>
  is any other string of the tree (comments, declarations, the contents of script and
  style elements), which \<^verbatim>\<open>get_text\<close> of an enclosing element leaves out. A tag carries
  its name, its attribute dictionary and its children. The document itself is the list
  of its top-level nodes.
\<close>

datatype node =
    Text string
  | Comment string
  | Tag string "(string \<times> string) list" "node list"

fun is_tag :: "node \<Rightarrow> bool" where
  "is_tag (Tag n a cs) = True"
| "is_tag _ = False"

fun tag_name :: "node \<Rightarrow> string" where
  \<comment> \<open>\<^verbatim>\<open>element.name\<close>\<close>
  "tag_name (Tag n a cs) = n"
| "tag_name _ = []"

fun get_attr :: "node \<Rightarrow> string \<Rightarrow> string option" where
  \<comment> \<open>\<^verbatim>\<open>element.get(key)\<close>\<close>
  "get_attr (Tag n a cs) k = map_of a k"
| "get_attr _ k = None"

text \<open>
  An element the search functions return: the tag together with its ancestors, the
  nearest first, which is what \<^verbatim>\<open>find_parent\<close> walks.
\<close>

type_synonym element = "node list \<times> node"

fun descendants_of :: "node list \<Rightarrow> node \<Rightarrow> element list" where
  \<comment> \<open>\<^verbatim>\<open>element.descendants\<close>, in document order\<close>
  "descendants_of anc (Tag n a cs) =
     concat (map (\<lambda>c. (Tag n a cs # anc, c) # descendants_of (Tag n a cs # anc) c) cs)"
| "descendants_of anc _ = []"

definition soup_descendants :: "node list \<Rightarrow> element list" where
  \<comment> \<open>the descendants of the document object\<close>
  "soup_descendants soup = concat (map (\<lambda>c. ([], c) # descendants_of [] c) soup)"

fun all_strings :: "node \<Rightarrow> string list" where
  \<comment> \<open>the strings \<^verbatim>\<open>get_text(strip=True)\<close> collects: each one stripped, the empty ones dropped\<close>
  "all_strings (Text s) = (if strip s = [] then [] else [strip s])"
| "all_strings (Comment s) = []"
| "all_strings (Tag n a cs) = concat (map all_strings cs)"

definition get_text :: "node \<Rightarrow> string" where
  \<comment> \<open>\<^verbatim>\<open>element.get_text(strip=True)\<close>\<close>
  "get_text e = concat (all_strings e)"

definition matches :: "string list \<Rightarrow> string \<Rightarrow> (string option \<Rightarrow> bool) \<Rightarrow> node \<Rightarrow> bool" where
  \<comment> \<open>one tag against the name list and the test on one attribute\<close>
  "matches names key test e = (is_tag e \<and> tag_name e \<in> set names \<and> test (get_attr e key))"

definition find_all_in :: "element list \<Rightarrow> string list \<Rightarrow> string \<Rightarrow> (string option \<Rightarrow> bool) \<Rightarrow> element list" where
  "find_all_in ds names key test = filter (\<lambda>(anc, e). matches names key test e) ds"

definition find_all :: "node list \<Rightarrow> string list \<Rightarrow> string \<Rightarrow> (string option \<Rightarrow> bool) \<Rightarrow> element list" where
  \<comment> \<open>\<^verbatim>\<open>soup.find_all(names, attrs={key: test})\<close>\<close>
  "find_all soup names key test = find_all_in (soup_descendants soup) names key test"

definition soup_find :: "node list \<Rightarrow> string list \<Rightarrow> string \<Rightarrow> (string option \<Rightarrow> bool) \<Rightarrow> node option" where
  \<comment> \<open>\<^verbatim>\<open>soup.find(names, attrs={key: test})\<close>: the first match or \<^verbatim>\<open>None\<close>\<close>
  "soup_find soup names key test =
     (case find_all soup names key test of [] \<Rightarrow> None | (anc, e) # _ \<Rightarrow> Some e)"

definition find :: "node \<Rightarrow> string list \<Rightarrow> string \<Rightarrow> (string option \<Rightarrow> bool) \<Rightarrow> node option" where
  \<comment> \<open>\<^verbatim>\<open>element.find(names, attrs={key: test})\<close>: the first matching descendant\<close>
  "find e names key test =
     (case find_all_in (descendants_of [] e) names key test of
        [] \<Rightarrow> None | (anc, d) # _ \<Rightarrow> Some d)"

definition find_parent :: "element \<Rightarrow> string \<Rightarrow> node option" where
  \<comment> \<open>\<^verbatim>\<open>element.find_parent(name)\<close>: the nearest ancestor of that name\<close>
  "find_parent el nm = List.find (\<lambda>p. tag_name p = nm) (fst el)"

text \<open>The attribute tests the scraper passes to the searches.\<close>

definition id_contains :: "string \<Rightarrow> string option \<Rightarrow> bool" where
  \<comment> \<open>\<^verbatim>\<open>lambda x: x and marker in str(x)\<close>\<close>
  "id_contains marker v = (case v of None \<Rightarrow> False | Some x \<Rightarrow> x \<noteq> [] \<and> str_in marker x)"

definition class_contains_lower :: "string \<Rightarrow> string option \<Rightarrow> bool" where
  \<comment> \<open>\<^verbatim>\<open>lambda x: x and marker in str(x).lower()\<close>\<close>
  "class_contains_lower marker v =
     (case v of None \<Rightarrow> False | Some x \<Rightarrow> x \<noteq> [] \<and> str_in marker (lower x))"

definition attr_is :: "string \<Rightarrow> string option \<Rightarrow> bool" where
  \<comment> \<open>an attribute compared with a string: \<^verbatim>\<open>attrs={'id': value}\<close>\<close>
  "attr_is value v = (v = Some value)"

definition attr_present :: "string option \<Rightarrow> bool" where
  \<comment> \<open>\<^verbatim>\<open>href=True\<close>: the attribute exists, whatever its value\<close>
  "attr_present v = (v \<noteq> None)"

definition any_attr :: "string option \<Rightarrow> bool" where
  \<comment> \<open>a search by name only\<close>
  "any_attr v = True"

section \<open>The scraper\<close>

text \<open>
  The functions of \<^verbatim>\<open>ifad_scraper.py\<close>, from the parsed page on. The progress messages
  they print are left out.

  \<^verbatim>\<open>job_data\<close> is a dictionary with at most these six keys; a key that has not been
  assigned is \<open>None\<close>, which is also what \<^verbatim>\<open>job_data.get(key)\<close> returns for it.
\<close>

record job_data =
  job_id :: "string option"
  title :: "string option"
  link :: "string option"
  location :: "string option"
  department :: "string option"
  description :: "string option"

text \<open>
  An entry of \<^verbatim>\<open>job_elements\<close>: the dictionary \<^verbatim>\<open>{'index': idx, 'id': text}\<close> of
  strategy 1, or an anchor element of strategy 2.
\<close>

datatype job_element = DictElem nat string | LinkElem element

definition JOB_ID_MARKER :: string where
  "JOB_ID_MARKER = ''HRS_APP_JBSCH_I_HRS_JOB_OPENING_ID$''"

definition JOB_URL :: string where
  "JOB_URL = ''https://job.ifad.org/psc/IFHRPRDE/CAREERS/JOBS/c/HRS_HRAM_FL.HRS_CG_SEARCH_FL.GBL?Page=HRS_APP_JBPST&Action=U&FOCUS=Applicant&SiteId=1&JobOpeningId=''"

definition ORIGIN :: string where
  "ORIGIN = ''https://job.ifad.org''"

definition BASE_PATH :: string where
  "BASE_PATH = ''https://job.ifad.org/psc/IFHRPRDE/CAREERS/JOBS/c/''"

definition skip_keywords :: "string list" where
  "skip_keywords = [''search'', ''filter'', ''login'', ''sign in'', ''home'', ''about'', ''all jobs'']"

definition job_id_elements :: "node list \<Rightarrow> element list" where
  \<comment> \<open>line 70\<close>
  "job_id_elements soup = find_all soup [''span''] ''id'' (id_contains JOB_ID_MARKER)"

definition job_links :: "node list \<Rightarrow> element list" where
  \<comment> \<open>line 79\<close>
  "job_links soup = find_all soup [''a''] ''id'' (id_contains ''SCH_JOB_TITLE$'')"

definition strategy1 :: "node list \<Rightarrow> job_element list" where
  \<comment> \<open>lines 70 to 75: one dictionary for each matched span, with its rank as index\<close>
  "strategy1 soup =
     (if job_id_elements soup \<noteq> []
      then map (\<lambda>(idx, id_elem). DictElem idx (get_text (snd id_elem)))
               (List.enumerate 0 (job_id_elements soup))
      else [])"

definition strategy2 :: "node list \<Rightarrow> job_element list" where
  \<comment> \<open>lines 79 to 82\<close>
  "strategy2 soup = (if job_links soup \<noteq> [] then map LinkElem (job_links soup) else [])"

definition find_job_elements :: "node list \<Rightarrow> job_element list" where
  \<comment> \<open>lines 67 to 82: strategy 2 runs only if \<^verbatim>\<open>job_elements\<close> is empty after strategy 1\<close>
  "find_job_elements soup =
     (let job_elements = strategy1 soup
      in if job_elements = [] then strategy2 soup else job_elements)"

definition make_description :: "string \<Rightarrow> string \<Rightarrow> string \<Rightarrow> string" where
  \<comment> \<open>lines 113 to 118 and 198 to 204\<close>
  "make_description ttl loc dept =
     join '' | ''
       ([ttl]
        @ (if loc \<noteq> [] \<and> loc \<noteq> ''IFAD'' then [''Location: '' @ loc] else [])
        @ (if dept \<noteq> [] then [''Department: '' @ dept] else []))"

definition title_id :: "nat \<Rightarrow> string" where
  \<comment> \<open>line 96: \<^verbatim>\<open>f'SCH_JOB_TITLE${job_idx}'\<close>\<close>
  "title_id job_idx = ''SCH_JOB_TITLE$'' @ str_of_nat job_idx"

definition location_id :: "nat \<Rightarrow> string" where
  \<comment> \<open>line 105: \<^verbatim>\<open>f'LOCATION${job_idx}'\<close>\<close>
  "location_id job_idx = ''LOCATION$'' @ str_of_nat job_idx"

definition dept_id :: "nat \<Rightarrow> string" where
  \<comment> \<open>line 109: \<^verbatim>\<open>f'HRS_APP_JBSCH_I_HRS_DEPT_DESCR${job_idx}'\<close>\<close>
  "dept_id job_idx = ''HRS_APP_JBSCH_I_HRS_DEPT_DESCR$'' @ str_of_nat job_idx"

definition find_span :: "node list \<Rightarrow> string \<Rightarrow> node option" where
  \<comment> \<open>\<^verbatim>\<open>soup.find('span', attrs={'id': value})\<close>, lines 96, 105 and 109\<close>
  "find_span soup value = soup_find soup [''span''] ''id'' (attr_is value)"

definition has_title :: "node list \<Rightarrow> nat \<Rightarrow> bool" where
  \<comment> \<open>line 97: the title element exists and its text is not empty\<close>
  "has_title soup job_idx =
     (case find_span soup (title_id job_idx) of
        None \<Rightarrow> False
      | Some title_elem \<Rightarrow> get_text title_elem \<noteq> [])"

definition process_dict :: "node list \<Rightarrow> nat \<Rightarrow> string \<Rightarrow> job_data option" where
  \<comment> \<open>lines 92 to 124; \<open>None\<close> when the loop goes on without appending\<close>
  "process_dict soup job_idx jid =
     (case find_span soup (title_id job_idx) of
        None \<Rightarrow> None
      | Some title_elem \<Rightarrow>
          if get_text title_elem = [] then None
          else
            (let ttl = get_text title_elem;
                 lnk = JOB_URL @ jid;
                 loc = (case find_span soup (location_id job_idx) of
                          Some location_elem \<Rightarrow> get_text location_elem
                        | None \<Rightarrow> ''IFAD'');
                 dept = (case find_span soup (dept_id job_idx) of
                           Some dept_elem \<Rightarrow> get_text dept_elem
                         | None \<Rightarrow> [])
             in if ttl \<noteq> [] \<and> lnk \<noteq> []
                then Some \<lparr>job_id = Some jid, title = Some ttl, link = Some lnk,
                           location = Some loc, department = Some dept,
                           description = Some (make_description ttl loc dept)\<rparr>
                else None))"

definition resolve_href :: "string \<Rightarrow> string" where
  \<comment> \<open>lines 129 to 134, and again 139 to 144\<close>
  "resolve_href href =
     (if startswith href ''http'' then href
      else if startswith href ''/'' then ORIGIN @ href
      else BASE_PATH @ href)"

definition resolve_row_href :: "string \<Rightarrow> string" where
  \<comment> \<open>lines 152 to 155: the link found in the parent row\<close>
  "resolve_row_href href = (if startswith href ''http'' then href else ORIGIN @ href)"

definition link_of :: "element \<Rightarrow> string option" where
  \<comment> \<open>lines 127 to 158; \<open>None\<close> when the element is skipped. \<^verbatim>\<open>x['href']\<close> on a tag without
      that attribute raises, and the handler of line 210 skips the element.\<close>
  "link_of el =
     (let element = snd el
      in if tag_name element = ''a'' \<and> truthy (get_attr element ''href'')
         then map_option resolve_href (get_attr element ''href'')
         else
           (case find element [''a''] ''href'' attr_present of
              Some link_elem \<Rightarrow> map_option resolve_href (get_attr link_elem ''href'')
            | None \<Rightarrow>
                (let lnk =
                       (case find_parent el ''tr'' of
                          None \<Rightarrow> None
                        | Some parent \<Rightarrow>
                            (case find parent [''a''] ''href'' attr_present of
                               None \<Rightarrow> None
                             | Some link_elem \<Rightarrow>
                                 map_option resolve_row_href (get_attr link_elem ''href'')))
                 in if truthy lnk then lnk else None)))"

definition title_of :: "node \<Rightarrow> string" where
  \<comment> \<open>lines 161 to 172\<close>
  "title_of element =
     (if tag_name element = ''a'' then get_text element
      else
        (let title_elem =
               (case find element [''span'', ''div''] ''id'' (id_contains ''POSTING_TITLE'') of
                  Some t \<Rightarrow> Some t
                | None \<Rightarrow> find element [''h2'', ''h3'', ''h4'', ''a''] ''id'' any_attr)
         in case title_elem of
              Some t \<Rightarrow> get_text t
            | None \<Rightarrow> take 100 (get_text element)))"

definition location_of :: "element \<Rightarrow> string" where
  \<comment> \<open>lines 183 to 191\<close>
  "location_of el =
     (let element = snd el;
          loc1 = find element [''span'', ''div''] ''id'' (id_contains ''LOCATION'');
          loc2 = (case loc1 of
                    Some l \<Rightarrow> Some l
                  | None \<Rightarrow> find element [''span'', ''div'', ''p''] ''class''
                              (class_contains_lower ''location''));
          loc3 = (if loc2 = None \<and> tag_name element \<noteq> ''a''
                  then (case find_parent el ''tr'' of
                          Some parent \<Rightarrow>
                            find parent [''span'', ''div''] ''id'' (id_contains ''LOCATION'')
                        | None \<Rightarrow> loc2)
                  else loc2)
      in case loc3 of Some location_elem \<Rightarrow> get_text location_elem | None \<Rightarrow> ''IFAD'')"

definition department_of :: "node \<Rightarrow> string" where
  \<comment> \<open>lines 194 and 195\<close>
  "department_of element =
     (case find element [''span'', ''div''] ''id'' (id_contains ''DEPARTMENT'') of
        Some dept_elem \<Rightarrow> get_text dept_elem
      | None \<Rightarrow> [])"

definition process_link :: "element \<Rightarrow> job_data option" where
  \<comment> \<open>lines 127 to 208\<close>
  "process_link el =
     (case link_of el of
        None \<Rightarrow> None
      | Some lnk \<Rightarrow>
          (let ttl = title_of (snd el)
           in if ttl = [] \<or> length ttl < 5 then None
              else if (\<exists>keyword \<in> set skip_keywords. str_in keyword (lower ttl)) then None
              else
                (let loc = location_of el;
                     dept = department_of (snd el)
                 in if ttl \<noteq> [] \<and> lnk \<noteq> []
                    then Some \<lparr>job_id = None, title = Some ttl, link = Some lnk,
                               location = Some loc, department = Some dept,
                               description = Some (make_description ttl loc dept)\<rparr>
                    else None)))"

fun process_element :: "node list \<Rightarrow> job_element \<Rightarrow> job_data option" where
  \<comment> \<open>the body of the loop of line 86: the \<^verbatim>\<open>isinstance(element, dict)\<close> branch, or the rest\<close>
  "process_element soup (DictElem job_idx jid) = process_dict soup job_idx jid"
| "process_element soup (LinkElem el) = process_link el"

fun process_elements :: "node list \<Rightarrow> job_element list \<Rightarrow> job_data list \<Rightarrow> job_data list" where
  \<comment> \<open>the loop of line 86 over the elements it is given, appending to \<^verbatim>\<open>jobs\<close>\<close>
  "process_elements soup [] jobs = jobs"
| "process_elements soup (element # rest) jobs =
     process_elements soup rest
       (case process_element soup element of None \<Rightarrow> jobs | Some jd \<Rightarrow> jobs @ [jd])"

definition extract_jobs :: "node list \<Rightarrow> job_data list" where
  \<comment> \<open>lines 66 to 212 on the parsed page\<close>
  "extract_jobs soup = process_elements soup (take 50 (find_job_elements soup)) []"

definition scrape_ifad_jobs :: "node list option \<Rightarrow> job_data list" where
  \<comment> \<open>\<open>None\<close>: loading or reading the page raised, and the handler of line 216 leaves
      \<^verbatim>\<open>jobs\<close> empty\<close>
  "scrape_ifad_jobs page =
     (case page of None \<Rightarrow> [] | Some soup \<Rightarrow> extract_jobs soup)"

section \<open>The feed serializer\<close>

text \<open>
  An element of \<^verbatim>\<open>xml.etree.ElementTree\<close>: its tag, its attributes in the order they were
  set, its text (\<open>None\<close> until it is assigned) and its children.
\<close>

datatype xml =
  Element (elem_tag: string) (elem_attrib: "(string \<times> string) list")
    (elem_text: "string option") (elem_children: "xml list")

definition new_element :: "string \<Rightarrow> xml" where
  \<comment> \<open>the element that \<^verbatim>\<open>ET.SubElement(parent, tag)\<close> creates\<close>
  "new_element tg = Element tg [] None []"

fun set_text :: "xml \<Rightarrow> string \<Rightarrow> xml" where
  \<comment> \<open>\<^verbatim>\<open>elem.text = value\<close>\<close>
  "set_text (Element tg a x cs) value = Element tg a (Some value) cs"

fun set_attrib :: "xml \<Rightarrow> string \<Rightarrow> string \<Rightarrow> xml" where
  \<comment> \<open>\<^verbatim>\<open>elem.set(key, value)\<close>: a dictionary update, a new key goes last\<close>
  "set_attrib (Element tg a x cs) k v =
     Element tg (if k \<in> fst ` set a then map (\<lambda>(k', v'). if k' = k then (k', v) else (k', v')) a
                 else a @ [(k, v)]) x cs"

fun append_child :: "xml \<Rightarrow> xml \<Rightarrow> xml" where
  \<comment> \<open>what \<^verbatim>\<open>ET.SubElement(parent, tag)\<close> does to the parent, the child taken as it is
      when the tree is serialised\<close>
  "append_child (Element tg a x cs) c = Element tg a x (cs @ [c])"

definition get_or :: "string option \<Rightarrow> string \<Rightarrow> string" where
  \<comment> \<open>\<^verbatim>\<open>job.get(key, default)\<close>\<close>
  "get_or v d = (case v of None \<Rightarrow> d | Some s \<Rightarrow> s)"

definition ATOM_NS :: string where
  "ATOM_NS = ''http://www.w3.org/2005/Atom''"

definition FEED_LINK :: string where
  "FEED_LINK = ''https://job.ifad.org/psc/IFHRPRDE/CAREERS/JOBS/c/HRS_HRAM_FL.HRS_CG_SEARCH_FL.GBL?Page=HRS_APP_SCHJOB_FL&Action=U''"

definition build_channel :: "string \<Rightarrow> xml" where
  \<comment> \<open>lines 234 to 257; \<open>now\<close> is the text \<^verbatim>\<open>strftime\<close> returns for the clock reading\<close>
  "build_channel now =
     (let channel = new_element ''channel'';
          channel = append_child channel (set_text (new_element ''title'') ''IFAD Jobs'');
          channel = append_child channel (set_text (new_element ''link'') FEED_LINK);
          channel = append_child channel
            (set_text (new_element ''description'')
               ''Job listings from International Fund for Agricultural Development (IFAD)'');
          channel = append_child channel (set_text (new_element ''language'') ''en-us'');
          channel = append_child channel
            (set_attrib
               (set_attrib
                  (set_attrib (new_element (''{'' @ ATOM_NS @ ''}link''))
                     ''href'' ''https://cinfoposte.github.io/ifad-jobs/ifad_jobs.xml'')
                  ''rel'' ''self'')
               ''type'' ''application/rss+xml'');
          channel = append_child channel (set_text (new_element ''lastBuildDate'') now)
      in channel)"

definition item_of :: "job_data \<Rightarrow> xml" where
  \<comment> \<open>lines 261 to 275: the item of one job\<close>
  "item_of job =
     (let item = new_element ''item'';
          item = append_child item
            (set_text (new_element ''title'') (get_or (title job) ''Untitled Position''));
          item = append_child item (set_text (new_element ''link'') (get_or (link job) []));
          item = append_child item
            (set_text (new_element ''description'') (get_or (description job) []));
          item = append_child item
            (set_text (set_attrib (new_element ''guid'') ''isPermaLink'' ''true'')
               (get_or (link job) []))
      in item)"

fun add_items :: "xml \<Rightarrow> job_data list \<Rightarrow> xml" where
  \<comment> \<open>the loop of line 260\<close>
  "add_items channel [] = channel"
| "add_items channel (job # jobs) = add_items (append_child channel (item_of job)) jobs"

definition build_rss :: "job_data list \<Rightarrow> string \<Rightarrow> xml" where
  \<comment> \<open>lines 231 to 275: the tree that is serialised\<close>
  "build_rss jobs now =
     append_child (Element ''rss'' [(''version'', ''2.0'')] None [])
       (add_items (build_channel now) jobs)"

text \<open>
  Lines 278 to 280 hand the tree to the standard library: \<^verbatim>\<open>ET.tostring\<close> writes it as
  text, \<^verbatim>\<open>minidom.parseString\<close> reads the text back and \<^verbatim>\<open>toprettyxml\<close> prints the
  document it has read. The model follows CPython 3.11. What the parser reads back is
  the same tree with qualified names, the declaration of the \<^verbatim>\<open>atom\<close> prefix on the
  root, a text node for each non-empty text, and line ends normalised; it raises on a
  character that XML 1.0 does not allow, and the exception leaves \<^verbatim>\<open>generate_rss_feed\<close>.
\<close>

datatype dom = DomText string | DomElement string "(string \<times> string) list" "dom list"

definition xml_char :: "char \<Rightarrow> bool" where
  \<comment> \<open>the characters of XML 1.0, among the code points below 256\<close>
  "xml_char c = (of_char c \<in> {9, 10, 13 :: nat} \<or> (32 :: nat) \<le> of_char c)"

fun well_formed :: "xml \<Rightarrow> bool" where
  \<comment> \<open>\<^verbatim>\<open>parseString\<close> accepts the serialised tree\<close>
  "well_formed (Element tg a x cs) =
     (list_all (\<lambda>(k, v). list_all xml_char v) a \<and>
      (case x of None \<Rightarrow> True | Some t \<Rightarrow> list_all xml_char t) \<and>
      list_all well_formed cs)"

fun normalize_newlines :: "string \<Rightarrow> string" where
  \<comment> \<open>the parser turns \<^verbatim>\<open>\r\n\<close> and a lone \<^verbatim>\<open>\r\<close> into \<^verbatim>\<open>\n\<close>\<close>
  "normalize_newlines [] = []"
| "normalize_newlines [c] = (if c = CHR 0x0D then [CHR 0x0A] else [c])"
| "normalize_newlines (c # d # s) =
     (if c = CHR 0x0D \<and> d = CHR 0x0A then CHR 0x0A # normalize_newlines s
      else if c = CHR 0x0D then CHR 0x0A # normalize_newlines (d # s)
      else c # normalize_newlines (d # s))"

definition qname :: "string \<Rightarrow> string" where
  \<comment> \<open>the name \<^verbatim>\<open>ET.tostring\<close> writes for a tag, with the prefix registered at line 228\<close>
  "qname tg = (if tg = ''{'' @ ATOM_NS @ ''}link'' then ''atom:link'' else tg)"

fun dom_of :: "xml \<Rightarrow> dom" where
  "dom_of (Element tg a x cs) =
     DomElement (qname tg) a
       ((case x of
           None \<Rightarrow> []
         | Some t \<Rightarrow> if t = [] then [] else [DomText (normalize_newlines t)])
        @ map dom_of cs)"

fun add_namespace :: "dom \<Rightarrow> dom" where
  \<comment> \<open>the declaration that \<^verbatim>\<open>ET.tostring\<close> writes first on the root\<close>
  "add_namespace (DomElement tg a cs) = DomElement tg ((''xmlns:atom'', ATOM_NS) # a) cs"
| "add_namespace (DomText t) = DomText t"

definition parse_tostring :: "xml \<Rightarrow> dom option" where
  \<comment> \<open>lines 278 and 279; \<open>None\<close> when \<^verbatim>\<open>parseString\<close> raises\<close>
  "parse_tostring root = (if well_formed root then Some (add_namespace (dom_of root)) else None)"

definition write_char :: "char \<Rightarrow> string" where
  "write_char c =
     (if c = CHR ''&'' then ''&amp;''
      else if c = CHR ''<'' then ''&lt;''
      else if c = CHR 0x22 then ''&quot;''
      else if c = CHR ''>'' then ''&gt;''
      else [c])"

definition write_data :: "string \<Rightarrow> string" where
  \<comment> \<open>minidom's \<^verbatim>\<open>_write_data\<close>: the four replacements\<close>
  "write_data s = concat (map write_char s)"

definition write_attrs :: "(string \<times> string) list \<Rightarrow> string" where
  "write_attrs a = concat (map (\<lambda>(k, v). '' '' @ k @ [CHR ''='', CHR 0x22] @ write_data v @ [CHR 0x22]) a)"

fun writexml :: "string \<Rightarrow> dom \<Rightarrow> string" where
  \<comment> \<open>minidom's \<^verbatim>\<open>writexml(writer, indent, addindent='  ', newl='\n')\<close>\<close>
  "writexml indent (DomText t) = write_data (indent @ t @ [CHR 0x0A])"
| "writexml indent (DomElement tg a cs) =
     indent @ ''<'' @ tg @ write_attrs a @
     (if cs = [] then ''/>'' @ [CHR 0x0A]
      else ''>'' @
        (case cs of
           [DomText t] \<Rightarrow> write_data t
         | _ \<Rightarrow> [CHR 0x0A] @ concat (map (writexml (indent @ ''  '')) cs) @ indent)
        @ ''</'' @ tg @ ''>'' @ [CHR 0x0A])"

definition toprettyxml :: "dom \<Rightarrow> string" where
  \<comment> \<open>\<^verbatim>\<open>dom.toprettyxml(indent='  ')\<close>: the declaration, then the root\<close>
  "toprettyxml root =
     ''<?xml version='' @ [CHR 0x22] @ ''1.0'' @ [CHR 0x22] @ '' ?>'' @ [CHR 0x0A] @ writexml [] root"

fun split_lines :: "string \<Rightarrow> string list" where
  \<comment> \<open>\<^verbatim>\<open>s.split('\n')\<close>\<close>
  "split_lines [] = [[]]"
| "split_lines (c # s) =
     (if c = CHR 0x0A then [] # split_lines s
      else (case split_lines s of l # ls \<Rightarrow> (c # l) # ls | [] \<Rightarrow> [[c]]))"

definition remove_blank_lines :: "string \<Rightarrow> string" where
  \<comment> \<open>line 283\<close>
  "remove_blank_lines s = join [CHR 0x0A] (filter (\<lambda>line. strip line \<noteq> []) (split_lines s))"

definition feed_text :: "job_data list \<Rightarrow> string \<Rightarrow> string option" where
  \<comment> \<open>lines 228 to 283: the text to write, \<open>None\<close> when \<^verbatim>\<open>parseString\<close> raises\<close>
  "feed_text jobs now =
     map_option (\<lambda>d. remove_blank_lines (toprettyxml d)) (parse_tostring (build_rss jobs now))"

text \<open>
  The files of the run: a map from a path to the text of the file. \<open>None\<close> as result is
  an exception that leaves the function, with nothing written.
\<close>

definition feed_head :: string where
  \<comment> \<open>what \<^verbatim>\<open>toprettyxml\<close> prints before the \<^verbatim>\<open>lastBuildDate\<close> element\<close>
  "feed_head =
     ''<?xml version='' @ [CHR 0x22] @ ''1.0'' @ [CHR 0x22] @ '' ?>'' @ [CHR 0x0A]
     @ ''<rss'' @ write_attrs [(''xmlns:atom'', ATOM_NS), (''version'', ''2.0'')] @ ''>'' @ [CHR 0x0A]
     @ ''  <channel>'' @ [CHR 0x0A]
     @ concat (map (\<lambda>e. writexml ''    '' (dom_of e))
         [Element ''title'' [] (Some ''IFAD Jobs'') [],
          Element ''link'' [] (Some FEED_LINK) [],
          Element ''description'' []
            (Some ''Job listings from International Fund for Agricultural Development (IFAD)'') [],
          Element ''language'' [] (Some ''en-us'') [],
          Element (''{'' @ ATOM_NS @ ''}link'')
            [(''href'', ''https://cinfoposte.github.io/ifad-jobs/ifad_jobs.xml''),
             (''rel'', ''self''), (''type'', ''application/rss+xml'')] None []])"

definition feed_tail :: "job_data list \<Rightarrow> string" where
  \<comment> \<open>what \<^verbatim>\<open>toprettyxml\<close> prints after the \<^verbatim>\<open>lastBuildDate\<close> element\<close>
  "feed_tail jobs =
     concat (map (\<lambda>job. writexml ''    '' (dom_of (item_of job))) jobs)
     @ ''  </channel>'' @ [CHR 0x0A] @ ''</rss>'' @ [CHR 0x0A]"

definition last_build_field :: "string \<Rightarrow> string" where
  \<comment> \<open>the lines of the feed that the element of lines 256 and 257 alone gives\<close>
  "last_build_field now =
     remove_blank_lines (writexml ''    '' (dom_of (set_text (new_element ''lastBuildDate'') now)))"

type_synonym files = "string \<rightharpoonup> string"

definition generate_rss_feed :: "job_data list \<Rightarrow> string \<Rightarrow> string \<Rightarrow> files \<Rightarrow> files option" where
  \<comment> \<open>lines 224 to 287\<close>
  "generate_rss_feed jobs output_file now fs =
     (case feed_text jobs now of
        None \<Rightarrow> None
      | Some pretty_xml \<Rightarrow> Some (fs(output_file \<mapsto> pretty_xml)))"

definition main :: "node list option \<Rightarrow> string \<Rightarrow> files \<Rightarrow> files option" where
  \<comment> \<open>lines 299 to 306; \<open>page\<close> is what the browser delivers, \<open>now\<close> the clock reading\<close>
  "main page now fs =
     (let jobs = scrape_ifad_jobs page
      in if jobs \<noteq> [] then generate_rss_feed jobs ''ifad_jobs.xml'' now fs else Some fs)"

section \<open>Example pages\<close>

text \<open>
  Pages in the markup of the careers portal, to run the scraper on. \<open>job_anchor k\<close> is
  \<^verbatim>\<open><a id="SCH_JOB_TITLE$k" href="/careers/k">Agronomist</a>\<close>, which strategy 2 accepts;
  \<open>home_anchor\<close> is a navigation link with the same kind of id, which it rejects.
\<close>

definition job_anchor :: "nat \<Rightarrow> node" where
  "job_anchor k =
     Tag ''a'' [(''id'', ''SCH_JOB_TITLE$'' @ str_of_nat k), (''href'', ''/careers/'' @ str_of_nat k)]
       [Text ''Agronomist'']"

definition home_anchor :: node where
  "home_anchor = Tag ''a'' [(''id'', ''SCH_JOB_TITLE$0''), (''href'', ''/home'')] [Text ''Home'']"

definition page_51_jobs :: "node list" where
  \<comment> \<open>51 anchors, all of them valid\<close>
  "page_51_jobs = map job_anchor [0..<51]"

definition page_home_51_jobs :: "node list" where
  \<comment> \<open>52 anchors: the navigation link, then 51 valid ones\<close>
  "page_home_51_jobs = home_anchor # map job_anchor [1..<52]"

section \<open>Strings: what the substring test decides\<close>

lemma startswith_self: "startswith s s"
  by (simp add: startswith_def)

lemma str_in_self: "str_in p p"
  by (cases p) (simp_all add: startswith_self)

lemma startswith_iff: "startswith s p \<longleftrightarrow> (\<exists>b. s = p @ b)"
  unfolding startswith_def
  by (metis append_eq_conv_conj append_take_drop_id)

lemma str_in_iff: "str_in p s \<longleftrightarrow> (\<exists>a b. s = a @ p @ b)"
proof (induction s)
  case Nil
  then show ?case by auto
next
  case (Cons c s)
  have "(\<exists>a b. c # s = a @ p @ b) \<longleftrightarrow> (\<exists>b. c # s = p @ b) \<or> (\<exists>a b. s = a @ p @ b)"
  proof
    assume "\<exists>a b. c # s = a @ p @ b"
    then obtain a b where ab: "c # s = a @ p @ b" by blast
    show "(\<exists>b. c # s = p @ b) \<or> (\<exists>a b. s = a @ p @ b)"
    proof (cases a)
      case Nil
      with ab show ?thesis by auto
    next
      case (Cons x a')
      with ab have "s = a' @ p @ b" by simp
      then show ?thesis by blast
    qed
  next
    assume "(\<exists>b. c # s = p @ b) \<or> (\<exists>a b. s = a @ p @ b)"
    then show "\<exists>a b. c # s = a @ p @ b"
    proof
      assume "\<exists>b. c # s = p @ b"
      then obtain b where "c # s = [] @ p @ b" by auto
      then show ?thesis by blast
    next
      assume "\<exists>a b. s = a @ p @ b"
      then obtain a b where "c # s = (c # a) @ p @ b" by auto
      then show ?thesis by blast
    qed
  qed
  then show ?case using Cons.IH by (simp add: startswith_iff)
qed

section \<open>The loop and the two strategies\<close>

lemma process_elements_eq:
  "process_elements soup es jobs = jobs @ List.map_filter (process_element soup) es"
  by (induction es arbitrary: jobs) (simp_all add: List.map_filter_simps split: option.splits)

lemma extract_jobs_eq:
  "extract_jobs soup = List.map_filter (process_element soup) (take 50 (find_job_elements soup))"
  by (simp add: extract_jobs_def process_elements_eq)

lemma in_extract_jobsD:
  assumes "r \<in> set (extract_jobs soup)"
  shows "\<exists>e \<in> set (take 50 (find_job_elements soup)). process_element soup e = Some r"
  using assms by (auto simp: extract_jobs_eq List.map_filter_def)

lemma process_dict_SomeD:
  assumes "process_dict soup k jid = Some r"
  shows "\<exists>t l d. t \<noteq> [] \<and>
           r = \<lparr>job_id = Some jid, title = Some t, link = Some (JOB_URL @ jid),
                location = Some l, department = Some d,
                description = Some (make_description t l d)\<rparr>"
proof (cases "find_span soup (title_id k)")
  case None
  with assms show ?thesis by (simp add: process_dict_def)
next
  case (Some te)
  show ?thesis
  proof (cases "get_text te = []")
    case True
    with Some assms show ?thesis by (simp add: process_dict_def)
  next
    case False
    with Some assms show ?thesis
      by (simp add: process_dict_def Let_def split: if_splits) blast
  qed
qed

lemma process_link_SomeD:
  assumes "process_link el = Some r"
  shows "\<exists>t l d u. t \<noteq> [] \<and> 5 \<le> length t \<and>
           (\<forall>k \<in> set skip_keywords. \<not> str_in k (lower t)) \<and>
           link_of el = Some u \<and>
           r = \<lparr>job_id = None, title = Some t, link = Some u,
                location = Some l, department = Some d,
                description = Some (make_description t l d)\<rparr>"
proof (cases "link_of el")
  case None
  with assms show ?thesis by (simp add: process_link_def)
next
  case (Some u)
  let ?t = "title_of (snd el)"
  from assms Some have a: "\<not> (?t = [] \<or> length ?t < 5)"
    and b: "\<not> (\<exists>keyword \<in> set skip_keywords. str_in keyword (lower ?t))"
    and c: "r = \<lparr>job_id = None, title = Some ?t, link = Some u,
                location = Some (location_of el), department = Some (department_of (snd el)),
                description = Some (make_description ?t (location_of el) (department_of (snd el)))\<rparr>"
    by (simp_all add: process_link_def Let_def split: if_splits)
  from a have "?t \<noteq> []" "5 \<le> length ?t" by auto
  with b c Some show ?thesis by blast
qed

lemma strategy1_empty_iff: "strategy1 soup = [] \<longleftrightarrow> job_id_elements soup = []"
  by (simp add: strategy1_def enumerate_eq_zip)

lemma find_job_elements_links:
  "job_id_elements soup = [] \<Longrightarrow> find_job_elements soup = map LinkElem (job_links soup)"
  by (simp add: find_job_elements_def strategy1_empty_iff strategy2_def Let_def)

lemma find_job_elements_dicts:
  "job_id_elements soup \<noteq> [] \<Longrightarrow> find_job_elements soup = strategy1 soup"
  by (simp add: find_job_elements_def strategy1_empty_iff Let_def)

section \<open>C1: the checks on an accepted title\<close>

text \<open>
  C1, as the code has it. Every record of the run has a title, and the title is not
  empty. When no job-opening-id span matched, so that the records come from the anchor
  links of strategy 2, the title also has at least 5 characters and no stoplist term
  occurs in its lower-cased form, so that it equals none of them either. The records of
  strategy 1 pass through the non-empty test only.
\<close>

theorem accepted_title_checked:
  assumes "r \<in> set (extract_jobs soup)"
  shows "\<exists>t. title r = Some t \<and> t \<noteq> [] \<and>
           (job_id_elements soup = [] \<longrightarrow>
              5 \<le> length t \<and>
              (\<forall>k \<in> set skip_keywords. \<not> str_in k (lower t) \<and> lower t \<noteq> k))"
proof -
  from in_extract_jobsD [OF assms] obtain e
    where e: "e \<in> set (take 50 (find_job_elements soup))"
      and pe: "process_element soup e = Some r"
    by blast
  show ?thesis
  proof (cases "job_id_elements soup = []")
    case True
    from e have "e \<in> set (find_job_elements soup)" by (rule in_set_takeD)
    then have "e \<in> set (map LinkElem (job_links soup))"
      by (simp only: find_job_elements_links [OF True])
    then obtain el where "e = LinkElem el" by auto
    with pe have "process_link el = Some r" by simp
    from process_link_SomeD [OF this] obtain t l d u where
      t: "t \<noteq> []" "5 \<le> length t" "\<forall>k \<in> set skip_keywords. \<not> str_in k (lower t)"
      and r: "r = \<lparr>job_id = None, title = Some t, link = Some u,
                location = Some l, department = Some d,
                description = Some (make_description t l d)\<rparr>"
      by blast
    have "\<forall>k \<in> set skip_keywords. lower t \<noteq> k"
    proof
      fix k assume "k \<in> set skip_keywords"
      with t(3) have "\<not> str_in k (lower t)" by blast
      then show "lower t \<noteq> k" using str_in_self [of k] by auto
    qed
    moreover from r have "title r = Some t" by simp
    ultimately show ?thesis using t by blast
  next
    case False
    have "\<exists>t. title r = Some t \<and> t \<noteq> []"
    proof (cases e)
      case (DictElem k jid)
      with pe have "process_dict soup k jid = Some r" by simp
      from process_dict_SomeD [OF this] obtain t l d where "t \<noteq> []"
        "r = \<lparr>job_id = Some jid, title = Some t, link = Some (JOB_URL @ jid),
                location = Some l, department = Some d,
                description = Some (make_description t l d)\<rparr>" by blast
      then show ?thesis by simp
    next
      case (LinkElem el)
      with pe have "process_link el = Some r" by simp
      from process_link_SomeD [OF this] obtain t l d u where "t \<noteq> []"
        "r = \<lparr>job_id = None, title = Some t, link = Some u,
                location = Some l, department = Some d,
                description = Some (make_description t l d)\<rparr>" by blast
      then show ?thesis by simp
    qed
    with False show ?thesis by blast
  qed
qed

text \<open>
  The theorem at a page with one anchor, \<^verbatim>\<open><a id="SCH_JOB_TITLE$0" href="/careers/123">Senior Agronomist</a>\<close>.
\<close>

theorem accepted_title_checked_witness:
  "\<lparr>job_id = None, title = Some ''Senior Agronomist'',
     link = Some ''https://job.ifad.org/careers/123'', location = Some ''IFAD'',
     department = Some [], description = Some ''Senior Agronomist''\<rparr>
     \<in> set (extract_jobs
         [Tag ''a'' [(''id'', ''SCH_JOB_TITLE$0''), (''href'', ''/careers/123'')]
            [Text ''Senior Agronomist'']])
   \<and> job_id_elements
         [Tag ''a'' [(''id'', ''SCH_JOB_TITLE$0''), (''href'', ''/careers/123'')]
            [Text ''Senior Agronomist'']] = []
   \<and> 5 \<le> length ''Senior Agronomist''
   \<and> \<not> str_in ''home'' (lower ''Senior Agronomist'')"
proof -
  let ?soup = "[Tag ''a'' [(''id'', ''SCH_JOB_TITLE$0''), (''href'', ''/careers/123'')]
                  [Text ''Senior Agronomist'']]"
  let ?r = "\<lparr>job_id = None, title = Some ''Senior Agronomist'',
     link = Some ''https://job.ifad.org/careers/123'', location = Some ''IFAD'',
     department = Some [], description = Some ''Senior Agronomist''\<rparr>"
  have h: "?r \<in> set (extract_jobs ?soup)" by code_simp
  have g: "job_id_elements ?soup = []" by code_simp
  have k: "''home'' \<in> set skip_keywords" by (simp add: skip_keywords_def)
  from accepted_title_checked [OF h] g k
  have "5 \<le> length ''Senior Agronomist'' \<and> \<not> str_in ''home'' (lower ''Senior Agronomist'')"
    by auto
  with h g show ?thesis by blast
qed

text \<open>
  C1 as the spec states it fails for strategy 1: the page
  \<^verbatim>\<open><span id="HRS_APP_JBSCH_I_HRS_JOB_OPENING_ID$0">1001</span><span id="SCH_JOB_TITLE$0">Home</span>\<close>
  yields a record whose title has 4 characters and is the stoplist term \<open>home\<close> in
  another case.
\<close>

theorem accepted_title_counterexample:
  "map title (extract_jobs
      [Tag ''span'' [(''id'', ''HRS_APP_JBSCH_I_HRS_JOB_OPENING_ID$0'')] [Text ''1001''],
       Tag ''span'' [(''id'', ''SCH_JOB_TITLE$0'')] [Text ''Home'']]) = [Some ''Home'']
   \<and> length ''Home'' < 5
   \<and> lower ''Home'' \<in> set skip_keywords"
  by code_simp

section \<open>Strategy 1 by the ranks of its matches\<close>

lemma JOB_URL_nonempty: "JOB_URL \<noteq> []"
  by (simp add: JOB_URL_def)

lemma process_dict_eq:
  "process_dict soup k jid =
     (if has_title soup k
      then Some \<lparr>job_id = Some jid,
                 title = map_option get_text (find_span soup (title_id k)),
                 link = Some (JOB_URL @ jid),
                 location = Some (case find_span soup (location_id k) of
                                    Some e \<Rightarrow> get_text e | None \<Rightarrow> ''IFAD''),
                 department = Some (case find_span soup (dept_id k) of
                                      Some e \<Rightarrow> get_text e | None \<Rightarrow> []),
                 description = Some (make_description
                     (case find_span soup (title_id k) of Some e \<Rightarrow> get_text e | None \<Rightarrow> [])
                     (case find_span soup (location_id k) of
                        Some e \<Rightarrow> get_text e | None \<Rightarrow> ''IFAD'')
                     (case find_span soup (dept_id k) of
                        Some e \<Rightarrow> get_text e | None \<Rightarrow> []))\<rparr>
      else None)"
proof (cases "find_span soup (title_id k)")
  case None
  then show ?thesis by (simp add: process_dict_def has_title_def)
next
  case (Some te)
  then show ?thesis
    by (simp add: process_dict_def has_title_def Let_def JOB_URL_nonempty)
qed

lemma enumerate_as_map: "List.enumerate 0 xs = map (\<lambda>k. (k, xs ! k)) [0..<length xs]"
  by (rule nth_equalityI) (simp_all add: enumerate_eq_zip)

lemma strategy1_as_map:
  "job_id_elements soup \<noteq> [] \<Longrightarrow>
   strategy1 soup =
     map (\<lambda>k. DictElem k (get_text (snd (job_id_elements soup ! k))))
         [0..<length (job_id_elements soup)]"
  by (simp add: strategy1_def enumerate_as_map)

lemma take_upt_min: "take m [0..<n] = [0..<min m n]"
proof (cases "m \<le> n")
  case True
  then show ?thesis by (simp add: min_def)
next
  case False
  then show ?thesis by (simp add: min_def)
qed

lemma take_upt_map: "take m (map f [0..<n]) = map f [0..<min m n]"
  by (simp only: take_map take_upt_min)

lemma map_filter_map: "List.map_filter f (map g xs) = List.map_filter (\<lambda>x. f (g x)) xs"
  by (induction xs) (simp_all add: List.map_filter_simps split: option.splits)

lemma extract_jobs_strategy1:
  assumes "job_id_elements soup \<noteq> []"
  shows "extract_jobs soup =
     List.map_filter (\<lambda>k. process_dict soup k (get_text (snd (job_id_elements soup ! k))))
       [0..<min 50 (length (job_id_elements soup))]"
proof -
  have "extract_jobs soup = List.map_filter (process_element soup) (take 50 (strategy1 soup))"
    by (simp only: extract_jobs_eq find_job_elements_dicts [OF assms])
  also have "take 50 (strategy1 soup) =
      map (\<lambda>k. DictElem k (get_text (snd (job_id_elements soup ! k))))
         [0..<min 50 (length (job_id_elements soup))]"
    by (simp only: strategy1_as_map [OF assms] take_upt_map)
  finally show ?thesis
    by (simp add: map_filter_map)
qed

lemma map_job_id_dicts:
  "map job_id (List.map_filter (\<lambda>k. process_dict soup k (j k)) ks) =
   map (\<lambda>k. Some (j k)) (filter (has_title soup) ks)"
  by (induction ks) (simp_all add: List.map_filter_simps process_dict_eq)



section \<open>C2: what makes the scraper fall through to strategy 2\<close>

text \<open>
  C2, as the code has it. The test of line 78 is on the list of raw matches of
  strategy 1. Without a job-opening-id span the run is that of strategy 2; with at least
  one such span the run is that of strategy 1 alone and every record carries a job id,
  whether or not any of the matches led to a record.
\<close>

theorem fallthrough_on_raw_matches:
  "(job_id_elements soup = [] \<longrightarrow>
      extract_jobs soup = process_elements soup (take 50 (strategy2 soup)) []) \<and>
   (job_id_elements soup \<noteq> [] \<longrightarrow>
      extract_jobs soup = process_elements soup (take 50 (strategy1 soup)) [] \<and>
      list_all (\<lambda>r. job_id r \<noteq> None) (extract_jobs soup))"
proof (intro conjI impI)
  assume "job_id_elements soup = []"
  then show "extract_jobs soup = process_elements soup (take 50 (strategy2 soup)) []"
    by (simp add: extract_jobs_def find_job_elements_def strategy1_empty_iff)
next
  assume ne: "job_id_elements soup \<noteq> []"
  then show "extract_jobs soup = process_elements soup (take 50 (strategy1 soup)) []"
    by (simp add: extract_jobs_def find_job_elements_def strategy1_empty_iff)
next
  assume ne: "job_id_elements soup \<noteq> []"
  have "map job_id (extract_jobs soup) =
          map (\<lambda>k. Some (get_text (snd (job_id_elements soup ! k))))
            (filter (has_title soup) [0..<min 50 (length (job_id_elements soup))])"
    by (simp only: extract_jobs_strategy1 [OF ne] map_job_id_dicts)
  then have none: "None \<notin> set (map job_id (extract_jobs soup))" by auto
  show "list_all (\<lambda>r. job_id r \<noteq> None) (extract_jobs soup)"
    unfolding list_all_iff
  proof
    fix r assume "r \<in> set (extract_jobs soup)"
    then have "job_id r \<in> set (map job_id (extract_jobs soup))" by simp
    with none show "job_id r \<noteq> None" by metis
  qed
qed

text \<open>
  The theorem at two pages: one with an anchor only, and one that has a job-opening-id
  span with its title span before the same anchor.
\<close>

theorem fallthrough_on_raw_matches_witness:
  "job_id_elements
     [Tag ''a'' [(''id'', ''SCH_JOB_TITLE$0''), (''href'', ''/careers/123'')]
        [Text ''Senior Agronomist'']] = []
   \<and> extract_jobs
     [Tag ''a'' [(''id'', ''SCH_JOB_TITLE$0''), (''href'', ''/careers/123'')]
        [Text ''Senior Agronomist'']]
     = process_elements
         [Tag ''a'' [(''id'', ''SCH_JOB_TITLE$0''), (''href'', ''/careers/123'')]
            [Text ''Senior Agronomist'']]
         (take 50 (strategy2
            [Tag ''a'' [(''id'', ''SCH_JOB_TITLE$0''), (''href'', ''/careers/123'')]
               [Text ''Senior Agronomist'']])) []
   \<and> job_id_elements
     [Tag ''span'' [(''id'', ''HRS_APP_JBSCH_I_HRS_JOB_OPENING_ID$0'')] [Text ''1001''],
      Tag ''span'' [(''id'', ''SCH_JOB_TITLE$0'')] [Text ''Economist''],
      Tag ''a'' [(''id'', ''SCH_JOB_TITLE$0''), (''href'', ''/careers/123'')]
        [Text ''Senior Agronomist'']] \<noteq> []
   \<and> map title (extract_jobs
     [Tag ''span'' [(''id'', ''HRS_APP_JBSCH_I_HRS_JOB_OPENING_ID$0'')] [Text ''1001''],
      Tag ''span'' [(''id'', ''SCH_JOB_TITLE$0'')] [Text ''Economist''],
      Tag ''a'' [(''id'', ''SCH_JOB_TITLE$0''), (''href'', ''/careers/123'')]
        [Text ''Senior Agronomist'']]) = [Some ''Economist'']
   \<and> list_all (\<lambda>r. job_id r \<noteq> None) (extract_jobs
     [Tag ''span'' [(''id'', ''HRS_APP_JBSCH_I_HRS_JOB_OPENING_ID$0'')] [Text ''1001''],
      Tag ''span'' [(''id'', ''SCH_JOB_TITLE$0'')] [Text ''Economist''],
      Tag ''a'' [(''id'', ''SCH_JOB_TITLE$0''), (''href'', ''/careers/123'')]
        [Text ''Senior Agronomist'']])"
proof -
  let ?a = "[Tag ''a'' [(''id'', ''SCH_JOB_TITLE$0''), (''href'', ''/careers/123'')]
               [Text ''Senior Agronomist'']]"
  let ?b = "[Tag ''span'' [(''id'', ''HRS_APP_JBSCH_I_HRS_JOB_OPENING_ID$0'')] [Text ''1001''],
      Tag ''span'' [(''id'', ''SCH_JOB_TITLE$0'')] [Text ''Economist''],
      Tag ''a'' [(''id'', ''SCH_JOB_TITLE$0''), (''href'', ''/careers/123'')]
        [Text ''Senior Agronomist'']]"
  have ha: "job_id_elements ?a = []" by code_simp
  have hb: "job_id_elements ?b \<noteq> []" by code_simp
  have tb: "map title (extract_jobs ?b) = [Some ''Economist'']" by code_simp
  from fallthrough_on_raw_matches [of ?a] ha
  have 1: "extract_jobs ?a = process_elements ?a (take 50 (strategy2 ?a)) []" by blast
  from fallthrough_on_raw_matches [of ?b] hb
  have 2: "list_all (\<lambda>r. job_id r \<noteq> None) (extract_jobs ?b)" by blast
  from ha 1 hb tb 2 show ?thesis by blast
qed

text \<open>
  C2 as the spec states it fails. On the page
  \<^verbatim>\<open><span id="HRS_APP_JBSCH_I_HRS_JOB_OPENING_ID$0">1001</span><a id="SCH_JOB_TITLE$0" href="/careers/123">Senior Agronomist</a>\<close>
  strategy 1 has one raw match and no record, since no span has the id
  \<^verbatim>\<open>SCH_JOB_TITLE$0\<close>. The anchor would give strategy 2 a record, but the candidates of
  the run are those of strategy 1 and the run returns nothing.
\<close>

theorem fallthrough_counterexample:
  "strategy1
     [Tag ''span'' [(''id'', ''HRS_APP_JBSCH_I_HRS_JOB_OPENING_ID$0'')] [Text ''1001''],
      Tag ''a'' [(''id'', ''SCH_JOB_TITLE$0''), (''href'', ''/careers/123'')]
        [Text ''Senior Agronomist'']] = [DictElem 0 ''1001'']
   \<and> process_elements
     [Tag ''span'' [(''id'', ''HRS_APP_JBSCH_I_HRS_JOB_OPENING_ID$0'')] [Text ''1001''],
      Tag ''a'' [(''id'', ''SCH_JOB_TITLE$0''), (''href'', ''/careers/123'')]
        [Text ''Senior Agronomist'']] [DictElem 0 ''1001''] [] = []
   \<and> map title (process_elements
     [Tag ''span'' [(''id'', ''HRS_APP_JBSCH_I_HRS_JOB_OPENING_ID$0'')] [Text ''1001''],
      Tag ''a'' [(''id'', ''SCH_JOB_TITLE$0''), (''href'', ''/careers/123'')]
        [Text ''Senior Agronomist'']]
     (strategy2
        [Tag ''span'' [(''id'', ''HRS_APP_JBSCH_I_HRS_JOB_OPENING_ID$0'')] [Text ''1001''],
         Tag ''a'' [(''id'', ''SCH_JOB_TITLE$0''), (''href'', ''/careers/123'')]
           [Text ''Senior Agronomist'']]) []) = [Some ''Senior Agronomist'']
   \<and> find_job_elements
     [Tag ''span'' [(''id'', ''HRS_APP_JBSCH_I_HRS_JOB_OPENING_ID$0'')] [Text ''1001''],
      Tag ''a'' [(''id'', ''SCH_JOB_TITLE$0''), (''href'', ''/careers/123'')]
        [Text ''Senior Agronomist'']] = [DictElem 0 ''1001'']
   \<and> extract_jobs
     [Tag ''span'' [(''id'', ''HRS_APP_JBSCH_I_HRS_JOB_OPENING_ID$0'')] [Text ''1001''],
      Tag ''a'' [(''id'', ''SCH_JOB_TITLE$0''), (''href'', ''/careers/123'')]
        [Text ''Senior Agronomist'']] = []"
  by code_simp

section \<open>C3: matched elements with the same suffix\<close>




section \<open>C10: the sibling fields are looked up by rank\<close>





section \<open>Pages of anchors\<close>

lemma soup_descendants_Cons:
  "soup_descendants (c # soup) = ([], c) # descendants_of [] c @ soup_descendants soup"
  by (simp add: soup_descendants_def)

lemma get_text_Agronomist: "get_text (Tag n a [Text ''Agronomist'']) = ''Agronomist''"
  by (simp add: get_text_def strip_def isspace_def)

lemma find_in_text_only: "find (Tag n a [Text s]) names key test = None"
  by (simp add: find_def find_all_in_def matches_def)

lemma process_link_job_anchor:
  "process_link (anc, job_anchor k) =
     Some \<lparr>job_id = None, title = Some ''Agronomist'',
            link = Some (''https://job.ifad.org/careers/'' @ str_of_nat k),
            location = Some ''IFAD'', department = Some [],
            description = Some ''Agronomist''\<rparr>"
proof -
  have l: "link_of (anc, job_anchor k) = Some (''https://job.ifad.org/careers/'' @ str_of_nat k)"
    by (simp add: link_of_def job_anchor_def truthy_def resolve_href_def startswith_def ORIGIN_def)
  have t: "title_of (job_anchor k) = ''Agronomist''"
    by (simp add: title_of_def job_anchor_def get_text_Agronomist)
  have s: "\<not> (\<exists>keyword \<in> set skip_keywords. str_in keyword (lower ''Agronomist''))"
    by code_simp
  have o: "location_of (anc, job_anchor k) = ''IFAD''"
    by (simp add: location_of_def job_anchor_def find_in_text_only)
  have d: "department_of (job_anchor k) = []"
    by (simp add: department_of_def job_anchor_def find_in_text_only)
  have m: "make_description ''Agronomist'' ''IFAD'' [] = ''Agronomist''"
    by (simp add: make_description_def)
  show ?thesis
    using s by (simp add: process_link_def Let_def l t o d m)
qed

lemma process_link_home_anchor: "process_link (anc, home_anchor) = None"
proof -
  have "title_of home_anchor = ''Home''"
    by (simp add: title_of_def home_anchor_def get_text_def strip_def isspace_def)
  then show ?thesis
    by (simp add: process_link_def split: option.splits)
qed

lemma find_all_in_Cons:
  "find_all_in ((anc, e) # ds) names key test =
     (if matches names key test e then (anc, e) # find_all_in ds names key test
      else find_all_in ds names key test)"
  by (simp add: find_all_in_def)

lemma find_all_Nil: "find_all [] names key test = []"
  by (simp add: find_all_def soup_descendants_def find_all_in_def)

lemma matches_Text: "\<not> matches names key test (Text s)"
  by (simp add: matches_def)

lemma descendants_job_anchor:
  "descendants_of anc (job_anchor k) = [(job_anchor k # anc, Text ''Agronomist'')]"
  by (simp add: job_anchor_def)

lemma descendants_home_anchor:
  "descendants_of anc home_anchor = [(home_anchor # anc, Text ''Home'')]"
  by (simp add: home_anchor_def)

lemma find_all_Cons_job_anchor:
  "find_all (job_anchor k # soup) names key test =
     (if matches names key test (job_anchor k) then [([], job_anchor k)] else [])
     @ find_all soup names key test"
  by (simp add: find_all_def soup_descendants_Cons descendants_job_anchor find_all_in_Cons
        matches_Text)

lemma find_all_Cons_home_anchor:
  "find_all (home_anchor # soup) names key test =
     (if matches names key test home_anchor then [([], home_anchor)] else [])
     @ find_all soup names key test"
  by (simp add: find_all_def soup_descendants_Cons descendants_home_anchor find_all_in_Cons
        matches_Text)

lemma span_not_anchor:
  "\<not> matches [''span''] key test (job_anchor k)" "\<not> matches [''span''] key test home_anchor"
  by (simp_all add: matches_def job_anchor_def home_anchor_def)

lemma str_in_prefix: "str_in p (p @ s)"
  unfolding str_in_iff by (metis append_Nil)

lemma anchor_matches:
  "matches [''a''] ''id'' (id_contains ''SCH_JOB_TITLE$'') (job_anchor k)"
  "matches [''a''] ''id'' (id_contains ''SCH_JOB_TITLE$'') home_anchor"
  using str_in_prefix [of "''SCH_JOB_TITLE$''" "str_of_nat k"] str_in_prefix [of "''SCH_JOB_TITLE$''" "''0''"]
  by (simp_all add: matches_def job_anchor_def home_anchor_def id_contains_def)

lemma job_id_elements_anchors: "job_id_elements (map job_anchor ks) = []"
  by (induction ks)
     (simp_all add: job_id_elements_def find_all_Nil find_all_Cons_job_anchor span_not_anchor)

lemma job_links_anchors: "job_links (map job_anchor ks) = map (\<lambda>k. ([], job_anchor k)) ks"
  by (induction ks)
     (simp_all add: job_links_def find_all_Nil find_all_Cons_job_anchor anchor_matches)

lemma find_job_elements_page_51:
  "find_job_elements page_51_jobs = map (\<lambda>k. LinkElem ([], job_anchor k)) [0..<51]"
  by (simp add: page_51_jobs_def find_job_elements_links job_id_elements_anchors
        job_links_anchors comp_def)

lemma find_job_elements_page_home:
  "find_job_elements page_home_51_jobs =
     LinkElem ([], home_anchor) # map (\<lambda>k. LinkElem ([], job_anchor k)) [1..<52]"
proof -
  have "job_id_elements page_home_51_jobs = []"
    using job_id_elements_anchors [of "[1..<52]"]
    by (simp add: page_home_51_jobs_def job_id_elements_def find_all_Cons_home_anchor
          span_not_anchor)
  moreover have "job_links page_home_51_jobs =
      ([], home_anchor) # map (\<lambda>k. ([], job_anchor k)) [1..<52]"
    using job_links_anchors [of "[1..<52]"]
    by (simp add: page_home_51_jobs_def job_links_def find_all_Cons_home_anchor anchor_matches)
  ultimately show ?thesis
    by (simp add: find_job_elements_links comp_def)
qed

lemma length_map_filter_all:
  "list_all (\<lambda>x. f x \<noteq> None) xs \<Longrightarrow> length (List.map_filter f xs) = length xs"
  by (induction xs) (auto simp: List.map_filter_simps)

lemma length_map_filter_le: "length (List.map_filter f xs) \<le> length xs"
  by (induction xs) (auto simp: List.map_filter_simps split: option.splits)

lemma valid_job_anchors:
  "list_all (\<lambda>e. process_element soup e \<noteq> None) (map (\<lambda>k. LinkElem ([], job_anchor k)) ks)"
  by (simp add: list_all_iff process_link_job_anchor)

lemma length_jobs_of_anchors:
  "length (List.map_filter (process_element soup) (map (\<lambda>k. LinkElem ([], job_anchor k)) ks))
     = length ks"
  using length_map_filter_all [OF valid_job_anchors] by simp

section \<open>C4: the cap of 50\<close>

text \<open>
  C4, as the code has it. The slice of line 86 cuts the candidate list to its first 50
  entries before any of them is validated. The records are those of the valid candidates
  among these 50, in the order of discovery, so there are at most 50; there are exactly
  50 when the list has at least 50 candidates and each of the first 50 is valid.
\<close>

theorem cap_before_validation:
  "length (extract_jobs soup) \<le> 50 \<and>
   extract_jobs soup =
     List.map_filter (process_element soup) (take 50 (find_job_elements soup)) \<and>
   (50 \<le> length (find_job_elements soup) \<and>
    list_all (\<lambda>e. process_element soup e \<noteq> None) (take 50 (find_job_elements soup)) \<longrightarrow>
      length (extract_jobs soup) = 50)"
proof (intro conjI impI)
  have "length (extract_jobs soup) \<le> length (take 50 (find_job_elements soup))"
    unfolding extract_jobs_eq by (rule length_map_filter_le)
  then show "length (extract_jobs soup) \<le> 50" by simp
next
  show "extract_jobs soup =
     List.map_filter (process_element soup) (take 50 (find_job_elements soup))"
    by (rule extract_jobs_eq)
next
  assume a: "50 \<le> length (find_job_elements soup) \<and>
    list_all (\<lambda>e. process_element soup e \<noteq> None) (take 50 (find_job_elements soup))"
  then have "length (extract_jobs soup) = length (take 50 (find_job_elements soup))"
    unfolding extract_jobs_eq by (intro length_map_filter_all) simp
  with a show "length (extract_jobs soup) = 50" by simp
qed

text \<open>The theorem at a page of 51 valid anchors.\<close>

theorem cap_before_validation_witness:
  "50 \<le> length (find_job_elements page_51_jobs)
   \<and> list_all (\<lambda>e. process_element page_51_jobs e \<noteq> None)
        (take 50 (find_job_elements page_51_jobs))
   \<and> length (extract_jobs page_51_jobs) = 50"
proof -
  have n: "50 \<le> length (find_job_elements page_51_jobs)"
    by (simp add: find_job_elements_page_51)
  have "take 50 (find_job_elements page_51_jobs) =
          map (\<lambda>k. LinkElem ([], job_anchor k)) (take 50 [0..<51])"
    by (simp only: find_job_elements_page_51 take_map)
  then have v: "list_all (\<lambda>e. process_element page_51_jobs e \<noteq> None)
        (take 50 (find_job_elements page_51_jobs))"
    by (simp only: valid_job_anchors)
  from cap_before_validation [of page_51_jobs] n v
  have "length (extract_jobs page_51_jobs) = 50" by blast
  with n v show ?thesis by blast
qed

text \<open>
  C4 as the spec states it fails. The page has 52 anchors that strategy 2 matches: a
  navigation link with the text \<^verbatim>\<open>Home\<close>, then 51 valid job anchors. That is 51 valid
  candidates, and the run yields 49 records: the first 50 candidates hold the link that
  is rejected.
\<close>

theorem cap_counterexample:
  "length (find_job_elements page_home_51_jobs) = 52
   \<and> length (List.map_filter (process_element page_home_51_jobs)
               (find_job_elements page_home_51_jobs)) = 51
   \<and> length (extract_jobs page_home_51_jobs) = 49"
proof -
  have t: "take 50 (find_job_elements page_home_51_jobs) =
     LinkElem ([], home_anchor) # map (\<lambda>k. LinkElem ([], job_anchor k)) [1..<50]"
    by (simp add: find_job_elements_page_home take_map)
  show ?thesis
    by (simp add: extract_jobs_eq t List.map_filter_simps process_link_home_anchor
          length_jobs_of_anchors)
       (simp add: find_job_elements_page_home List.map_filter_simps process_link_home_anchor
          length_jobs_of_anchors)
qed

section \<open>C5: the description\<close>

lemma make_description_title_only:
  "(l = ''IFAD'' \<or> l = []) \<Longrightarrow> make_description t l [] = t"
  by (auto simp: make_description_def)

lemma make_description_full:
  "l \<noteq> ''IFAD'' \<Longrightarrow> l \<noteq> [] \<Longrightarrow> d \<noteq> [] \<Longrightarrow>
   make_description t l d = t @ '' | Location: '' @ l @ '' | Department: '' @ d"
  by (simp add: make_description_def)

lemma process_element_fields:
  assumes "process_element soup e = Some r"
  shows "\<exists>t l d. title r = Some t \<and> location r = Some l \<and> department r = Some d \<and>
           description r = Some (make_description t l d)"
proof (cases e)
  case (DictElem k jid)
  with assms have "process_dict soup k jid = Some r" by simp
  from process_dict_SomeD [OF this] obtain t l d where
    "r = \<lparr>job_id = Some jid, title = Some t, link = Some (JOB_URL @ jid),
                location = Some l, department = Some d,
                description = Some (make_description t l d)\<rparr>" by blast
  then show ?thesis by simp
next
  case (LinkElem el)
  with assms have "process_link el = Some r" by simp
  from process_link_SomeD [OF this] obtain t l d u where
    "r = \<lparr>job_id = None, title = Some t, link = Some u,
                location = Some l, department = Some d,
                description = Some (make_description t l d)\<rparr>" by blast
  then show ?thesis by simp
qed

text \<open>
  C5. Every record of the run has a title, a location and a department, and its
  description is \<open>make_description\<close> of the three. With the location \<^verbatim>\<open>IFAD\<close> or empty
  and the department empty the description is the title; with another, non-empty
  location and a non-empty department it is
  \<^verbatim>\<open>{title} | Location: {location} | Department: {department}\<close>.
\<close>

theorem description_from_fields:
  assumes "r \<in> set (extract_jobs soup)"
  shows "\<exists>t l d. title r = Some t \<and> location r = Some l \<and> department r = Some d \<and>
           description r = Some (make_description t l d) \<and>
           ((l = ''IFAD'' \<or> l = []) \<and> d = [] \<longrightarrow> description r = Some t) \<and>
           (l \<noteq> ''IFAD'' \<and> l \<noteq> [] \<and> d \<noteq> [] \<longrightarrow>
              description r = Some (t @ '' | Location: '' @ l @ '' | Department: '' @ d))"
proof -
  from in_extract_jobsD [OF assms] obtain e where "process_element soup e = Some r" by blast
  from process_element_fields [OF this] obtain t l d where
    f: "title r = Some t" "location r = Some l" "department r = Some d"
       "description r = Some (make_description t l d)"
    by blast
  have "(l = ''IFAD'' \<or> l = []) \<and> d = [] \<longrightarrow> description r = Some t"
    using f(4) make_description_title_only [of l t] by auto
  moreover have "l \<noteq> ''IFAD'' \<and> l \<noteq> [] \<and> d \<noteq> [] \<longrightarrow>
              description r = Some (t @ '' | Location: '' @ l @ '' | Department: '' @ d)"
    using f(4) make_description_full [of l d t] by auto
  ultimately show ?thesis using f by blast
qed

text \<open>
  The theorem at two records: one of a page that gives neither location nor department,
  one of a page with the location \<^verbatim>\<open>Rome\<close> and the department \<^verbatim>\<open>Finance\<close>.
\<close>

theorem description_from_fields_witness:
  "\<lparr>job_id = Some ''1001'', title = Some ''Agronomist'', link = Some (JOB_URL @ ''1001''),
     location = Some ''IFAD'', department = Some [], description = Some ''Agronomist''\<rparr>
     \<in> set (extract_jobs
         [Tag ''span'' [(''id'', ''HRS_APP_JBSCH_I_HRS_JOB_OPENING_ID$0'')] [Text ''1001''],
          Tag ''span'' [(''id'', ''SCH_JOB_TITLE$0'')] [Text ''Agronomist'']])
   \<and> \<lparr>job_id = Some ''1001'', title = Some ''Agronomist'', link = Some (JOB_URL @ ''1001''),
     location = Some ''Rome'', department = Some ''Finance'',
     description = Some ''Agronomist | Location: Rome | Department: Finance''\<rparr>
     \<in> set (extract_jobs
         [Tag ''span'' [(''id'', ''HRS_APP_JBSCH_I_HRS_JOB_OPENING_ID$0'')] [Text ''1001''],
          Tag ''span'' [(''id'', ''SCH_JOB_TITLE$0'')] [Text ''Agronomist''],
          Tag ''span'' [(''id'', ''LOCATION$0'')] [Text ''Rome''],
          Tag ''span'' [(''id'', ''HRS_APP_JBSCH_I_HRS_DEPT_DESCR$0'')] [Text ''Finance'']])
   \<and> make_description ''Agronomist'' ''IFAD'' [] = ''Agronomist''
   \<and> make_description ''Agronomist'' ''Rome'' ''Finance''
       = ''Agronomist | Location: Rome | Department: Finance''"
proof -
  let ?p1 = "[Tag ''span'' [(''id'', ''HRS_APP_JBSCH_I_HRS_JOB_OPENING_ID$0'')] [Text ''1001''],
          Tag ''span'' [(''id'', ''SCH_JOB_TITLE$0'')] [Text ''Agronomist'']]"
  let ?r1 = "\<lparr>job_id = Some ''1001'', title = Some ''Agronomist'', link = Some (JOB_URL @ ''1001''),
     location = Some ''IFAD'', department = Some [], description = Some ''Agronomist''\<rparr>"
  let ?p2 = "[Tag ''span'' [(''id'', ''HRS_APP_JBSCH_I_HRS_JOB_OPENING_ID$0'')] [Text ''1001''],
          Tag ''span'' [(''id'', ''SCH_JOB_TITLE$0'')] [Text ''Agronomist''],
          Tag ''span'' [(''id'', ''LOCATION$0'')] [Text ''Rome''],
          Tag ''span'' [(''id'', ''HRS_APP_JBSCH_I_HRS_DEPT_DESCR$0'')] [Text ''Finance'']]"
  let ?r2 = "\<lparr>job_id = Some ''1001'', title = Some ''Agronomist'', link = Some (JOB_URL @ ''1001''),
     location = Some ''Rome'', department = Some ''Finance'',
     description = Some ''Agronomist | Location: Rome | Department: Finance''\<rparr>"
  have h1: "?r1 \<in> set (extract_jobs ?p1)" by code_simp
  have h2: "?r2 \<in> set (extract_jobs ?p2)" by code_simp
  from description_from_fields [OF h1]
  have d1: "make_description ''Agronomist'' ''IFAD'' [] = ''Agronomist''" by auto
  from description_from_fields [OF h2]
  have d2: "make_description ''Agronomist'' ''Rome'' ''Finance''
       = ''Agronomist | Location: Rome | Department: Finance''" by auto
  from h1 h2 d1 d2 show ?thesis by blast
qed

section \<open>C6: the link taken from the parent row\<close>

text \<open>
  C6 fails on the code for a link taken from the parent row. In
  \<^verbatim>\<open><table><tr><td><a id="SCH_JOB_TITLE$0">Senior Agronomist</a></td><td><a href="HRS_HRAM_FL.HRS_CG_SEARCH_FL.GBL">Apply</a></td></tr></table>\<close>
  the matched anchor has no href and no anchor inside it, so the link is that of the first
  anchor with an href in its row (lines 147 to 155). These lines test for \<^verbatim>\<open>http\<close> and
  otherwise put the origin in front, without the test for a leading slash that lines
  129 to 134 and 139 to 144 make: the record's link is the origin and the fragment run
  together, where \<open>resolve_href\<close>, which the other two paths use, puts the base path in
  front.
\<close>

theorem row_link_without_base_path:
  "map link (extract_jobs
     [Tag ''table'' []
        [Tag ''tr'' []
           [Tag ''td'' [] [Tag ''a'' [(''id'', ''SCH_JOB_TITLE$0'')] [Text ''Senior Agronomist'']],
            Tag ''td'' [] [Tag ''a'' [(''href'', ''HRS_HRAM_FL.HRS_CG_SEARCH_FL.GBL'')]
                            [Text ''Apply'']]]]])
     = [Some ''https://job.ifad.orgHRS_HRAM_FL.HRS_CG_SEARCH_FL.GBL'']
   \<and> resolve_href ''HRS_HRAM_FL.HRS_CG_SEARCH_FL.GBL''
     = ''https://job.ifad.org/psc/IFHRPRDE/CAREERS/JOBS/c/HRS_HRAM_FL.HRS_CG_SEARCH_FL.GBL''"
  by code_simp

section \<open>The tree of the feed\<close>

lemma add_items_children:
  "add_items (Element tg a x cs) jobs = Element tg a x (cs @ map item_of jobs)"
  by (induction jobs arbitrary: cs) simp_all


lemma build_channel_eq:
  "build_channel now =
     Element ''channel'' [] None
       [Element ''title'' [] (Some ''IFAD Jobs'') [],
        Element ''link'' [] (Some FEED_LINK) [],
        Element ''description'' []
          (Some ''Job listings from International Fund for Agricultural Development (IFAD)'') [],
        Element ''language'' [] (Some ''en-us'') [],
        Element (''{'' @ ATOM_NS @ ''}link'')
          [(''href'', ''https://cinfoposte.github.io/ifad-jobs/ifad_jobs.xml''),
           (''rel'', ''self''), (''type'', ''application/rss+xml'')] None [],
        Element ''lastBuildDate'' [] (Some now) []]"
  by (simp add: build_channel_def new_element_def)

lemma build_rss_eq:
  "build_rss jobs now =
     Element ''rss'' [(''version'', ''2.0'')] None
       [Element ''channel'' [] None
          ([Element ''title'' [] (Some ''IFAD Jobs'') [],
            Element ''link'' [] (Some FEED_LINK) [],
            Element ''description'' []
              (Some ''Job listings from International Fund for Agricultural Development (IFAD)'') [],
            Element ''language'' [] (Some ''en-us'') [],
            Element (''{'' @ ATOM_NS @ ''}link'')
              [(''href'', ''https://cinfoposte.github.io/ifad-jobs/ifad_jobs.xml''),
               (''rel'', ''self''), (''type'', ''application/rss+xml'')] None [],
            Element ''lastBuildDate'' [] (Some now) []]
           @ map item_of jobs)]"
  by (simp only: build_rss_def build_channel_eq add_items_children append_child.simps append_Nil)

section \<open>Lines\<close>

lemma split_lines_nonempty: "split_lines s \<noteq> []"
  by (induction s) (auto split: list.splits)

lemma split_lines_append:
  "split_lines (u @ CHR 0x0A # v) = split_lines u @ split_lines v"
proof (induction u)
  case Nil
  show ?case by simp
next
  case (Cons c u)
  obtain l ls where "split_lines u = l # ls"
    using split_lines_nonempty [of u] by (cases "split_lines u") auto
  with Cons show ?case by simp
qed

lemma split_lines_trailing: "split_lines (u @ [CHR 0x0A]) = split_lines u @ [[]]"
  using split_lines_append [of u "[]"] by simp

lemma join_append:
  "xs \<noteq> [] \<Longrightarrow> ys \<noteq> [] \<Longrightarrow> join sep (xs @ ys) = join sep xs @ sep @ join sep ys"
proof (induction sep xs rule: join.induct)
  case (1 sep)
  then show ?case by simp
next
  case (2 sep p)
  then show ?case by (cases ys) simp_all
next
  case (3 sep p q ps)
  then show ?case by simp
qed

lemma in_dropWhile: "x \<in> set l \<Longrightarrow> \<not> P x \<Longrightarrow> x \<in> set (dropWhile P l)"
  by (induction l) auto

lemma strip_nonempty:
  assumes "c \<in> set l" and "\<not> isspace c"
  shows "strip l \<noteq> []"
proof -
  from assms have "c \<in> set (rev (dropWhile isspace l))"
    by (simp add: in_dropWhile)
  then have "c \<in> set (dropWhile isspace (rev (dropWhile isspace l)))"
    using assms(2) by (rule in_dropWhile)
  moreover have "set (strip l) = set (dropWhile isspace (rev (dropWhile isspace l)))"
    unfolding strip_def by (rule set_rev)
  ultimately have "c \<in> set (strip l)" by simp
  then show ?thesis by auto
qed

lemma strip_Nil: "strip [] = []"
  by (simp add: strip_def)

lemma isspace_newline: "isspace (CHR 0x0A)"
  by (simp add: isspace_def)

lemma in_some_line:
  "c \<in> set s \<Longrightarrow> c \<noteq> CHR 0x0A \<Longrightarrow> \<exists>l \<in> set (split_lines s). c \<in> set l"
proof (induction s)
  case Nil
  then show ?case by simp
next
  case (Cons d s)
  obtain l ls where ls: "split_lines s = l # ls"
    using split_lines_nonempty [of s] by (cases "split_lines s") auto
  show ?case
  proof (cases "c \<in> set s")
    case True
    with Cons obtain l' where "l' \<in> set (split_lines s)" "c \<in> set l'" by blast
    with ls show ?thesis by (cases "d = CHR 0x0A") auto
  next
    case False
    with Cons.prems have "d = c" by simp
    with Cons.prems ls show ?thesis by simp
  qed
qed

lemma has_nonblank_line:
  assumes "c \<in> set s" and "\<not> isspace c"
  shows "filter (\<lambda>line. strip line \<noteq> []) (split_lines s) \<noteq> []"
proof -
  from assms(2) have "c \<noteq> CHR 0x0A" using isspace_newline by auto
  from in_some_line [OF assms(1) this] obtain l where "l \<in> set (split_lines s)" "c \<in> set l"
    by blast
  moreover from this(2) assms(2) have "strip l \<noteq> []" by (rule strip_nonempty)
  ultimately show ?thesis by (auto simp: filter_empty_conv)
qed

lemma remove_blank_lines_append:
  assumes "c \<in> set u" "\<not> isspace c" and "d \<in> set v" "\<not> isspace d"
  shows "remove_blank_lines (u @ CHR 0x0A # v) =
           remove_blank_lines u @ CHR 0x0A # remove_blank_lines v"
  using has_nonblank_line [OF assms(1,2)] has_nonblank_line [OF assms(3,4)]
  by (simp add: remove_blank_lines_def split_lines_append join_append)

lemma remove_blank_lines_trailing:
  "remove_blank_lines (u @ [CHR 0x0A]) = remove_blank_lines u"
  by (simp add: remove_blank_lines_def split_lines_trailing strip_Nil)

lemma not_isspace_lt: "\<not> isspace (CHR ''<'')"
  by (simp add: isspace_def)


section \<open>The printed feed\<close>

lemma writexml_element_shape:
  "\<exists>body. writexml indent (DomElement tg a cs) = body @ [CHR 0x0A] \<and> CHR ''<'' \<in> set body"
proof (cases "cs = []")
  case True
  have "writexml indent (DomElement tg a cs) = (indent @ ''<'' @ tg @ write_attrs a @ ''/>'') @ [CHR 0x0A]"
    using True by simp
  moreover have "CHR ''<'' \<in> set (indent @ ''<'' @ tg @ write_attrs a @ ''/>'')" by simp
  ultimately show ?thesis by blast
next
  case False
  let ?inner = "(case cs of
           [DomText t] \<Rightarrow> write_data t
         | _ \<Rightarrow> [CHR 0x0A] @ concat (map (writexml (indent @ ''  '')) cs) @ indent)"
  have "writexml indent (DomElement tg a cs) =
      (indent @ ''<'' @ tg @ write_attrs a @ ''>'' @ ?inner @ ''</'' @ tg @ ''>'') @ [CHR 0x0A]"
    using False by simp
  moreover have "CHR ''<'' \<in> set (indent @ ''<'' @ tg @ write_attrs a @ ''>'' @ ?inner @ ''</'' @ tg @ ''>'')"
    by simp
  ultimately show ?thesis by blast
qed

lemma dom_of_is_element: "\<exists>tg a cs. dom_of e = DomElement tg a cs"
  by (cases e) simp

lemma toprettyxml_feed:
  "toprettyxml (add_namespace (dom_of (build_rss jobs now))) =
     feed_head @ writexml ''    '' (dom_of (set_text (new_element ''lastBuildDate'') now))
     @ feed_tail jobs"
  by (simp add: build_rss_eq toprettyxml_def feed_head_def feed_tail_def new_element_def
        qname_def ATOM_NS_def write_attrs_def comp_def)


lemma feed_head_shape: "\<exists>h. feed_head = h @ [CHR 0x0A] \<and> CHR ''<'' \<in> set h"
proof -
  have "feed_head = butlast feed_head @ [CHR 0x0A] \<and> CHR ''<'' \<in> set (butlast feed_head)"
    by code_simp
  then show ?thesis by blast
qed

lemma feed_tail_shape: "\<exists>t. feed_tail jobs = t @ [CHR 0x0A] \<and> CHR ''<'' \<in> set t"
proof -
  let ?t = "concat (map (\<lambda>job. writexml ''    '' (dom_of (item_of job))) jobs)
     @ ''  </channel>'' @ [CHR 0x0A] @ ''</rss>''"
  have "feed_tail jobs = ?t @ [CHR 0x0A]" by (simp add: feed_tail_def)
  moreover have "CHR ''<'' \<in> set ?t" by simp
  ultimately show ?thesis by blast
qed

lemma printed_feed_lines:
  "remove_blank_lines (toprettyxml (add_namespace (dom_of (build_rss jobs now)))) =
     remove_blank_lines feed_head @ CHR 0x0A # last_build_field now
     @ CHR 0x0A # remove_blank_lines (feed_tail jobs)"
proof -
  obtain h where h: "feed_head = h @ [CHR 0x0A]" and hc: "CHR ''<'' \<in> set h"
    using feed_head_shape by blast
  obtain t where t: "feed_tail jobs = t @ [CHR 0x0A]" and tc: "CHR ''<'' \<in> set t"
    using feed_tail_shape by blast
  obtain tg a cs where "dom_of (set_text (new_element ''lastBuildDate'') now) = DomElement tg a cs"
    using dom_of_is_element by blast
  then obtain f where f: "writexml ''    '' (dom_of (set_text (new_element ''lastBuildDate'') now))
      = f @ [CHR 0x0A]" and fc: "CHR ''<'' \<in> set f"
    using writexml_element_shape [of "''    ''" tg a cs] by auto
  have lb: "last_build_field now = remove_blank_lines f"
    by (simp only: last_build_field_def f remove_blank_lines_trailing)
  have "toprettyxml (add_namespace (dom_of (build_rss jobs now))) =
      h @ CHR 0x0A # (f @ CHR 0x0A # feed_tail jobs)"
    by (simp only: toprettyxml_feed h f append_assoc append_Cons append_Nil)
  moreover have "CHR ''<'' \<in> set (f @ CHR 0x0A # feed_tail jobs)" using fc by simp
  moreover have "CHR ''<'' \<in> set (feed_tail jobs)" using t tc by simp
  ultimately have "remove_blank_lines (toprettyxml (add_namespace (dom_of (build_rss jobs now)))) =
      remove_blank_lines h @ CHR 0x0A # remove_blank_lines f
        @ CHR 0x0A # remove_blank_lines (feed_tail jobs)"
    using hc fc not_isspace_lt
    by (simp add: remove_blank_lines_append [where c = "CHR ''<''" and d = "CHR ''<''"])
  moreover have "remove_blank_lines h = remove_blank_lines feed_head"
    by (simp only: h remove_blank_lines_trailing)
  ultimately show ?thesis by (simp only: lb)
qed

lemma well_formed_feed:
  "well_formed (build_rss jobs now) \<longleftrightarrow>
     list_all xml_char now \<and> list_all (\<lambda>job. well_formed (item_of job)) jobs"
  by (simp add: build_rss_eq FEED_LINK_def ATOM_NS_def xml_char_def list_all_iff)






section \<open>C8: one item for each record\<close>



section \<open>C7: the feed but for its time stamp\<close>

text \<open>
  C7. For each list of records there are two texts \<open>pre\<close> and \<open>post\<close> such that, whatever
  the time stamp, the file and the files of the run, \<^verbatim>\<open>generate_rss_feed\<close> either writes
  \<open>pre\<close>, the lines of the \<^verbatim>\<open>lastBuildDate\<close> element and \<open>post\<close> to the file, or raises
  in \<^verbatim>\<open>parseString\<close> and writes nothing; it raises exactly when the time stamp or a
  text of a record holds a character that XML does not allow. The text written is thus a
  function of the records and the time stamp, and two runs on the same records differ
  in the \<^verbatim>\<open>lastBuildDate\<close> element only.
\<close>

theorem feed_differs_in_last_build_only:
  "\<exists>pre post. \<forall>now output_file fs.
     generate_rss_feed jobs output_file now fs =
       (if list_all xml_char now \<and> list_all (\<lambda>job. well_formed (item_of job)) jobs
        then Some (fs(output_file \<mapsto> pre @ last_build_field now @ post))
        else None)"
proof -
  let ?pre = "remove_blank_lines feed_head @ [CHR 0x0A]"
  let ?post = "CHR 0x0A # remove_blank_lines (feed_tail jobs)"
  have "generate_rss_feed jobs output_file now fs =
       (if list_all xml_char now \<and> list_all (\<lambda>job. well_formed (item_of job)) jobs
        then Some (fs(output_file \<mapsto> ?pre @ last_build_field now @ ?post))
        else None)" for now output_file fs
    by (simp add: generate_rss_feed_def feed_text_def parse_tostring_def well_formed_feed
          printed_feed_lines)
  then show ?thesis by blast
qed

text \<open>The theorem at one record and two time stamps, a day apart.\<close>

theorem feed_differs_in_last_build_only_witness:
  "\<exists>pre post.
     generate_rss_feed
       [\<lparr>job_id = None, title = Some ''Economist'', link = Some ''https://job.ifad.org/careers/2'',
          location = Some ''IFAD'', department = Some [], description = Some ''Economist''\<rparr>]
       ''ifad_jobs.xml'' ''Wed, 04 Nov 2026 12:33:00 +0000'' Map.empty
       = Some [''ifad_jobs.xml'' \<mapsto>
           pre @ ''    <lastBuildDate>Wed, 04 Nov 2026 12:33:00 +0000</lastBuildDate>'' @ post]
   \<and> generate_rss_feed
       [\<lparr>job_id = None, title = Some ''Economist'', link = Some ''https://job.ifad.org/careers/2'',
          location = Some ''IFAD'', department = Some [], description = Some ''Economist''\<rparr>]
       ''ifad_jobs.xml'' ''Thu, 05 Nov 2026 12:33:00 +0000'' Map.empty
       = Some [''ifad_jobs.xml'' \<mapsto>
           pre @ ''    <lastBuildDate>Thu, 05 Nov 2026 12:33:00 +0000</lastBuildDate>'' @ post]"
proof -
  let ?jobs = "[\<lparr>job_id = None, title = Some ''Economist'',
          link = Some ''https://job.ifad.org/careers/2'',
          location = Some ''IFAD'', department = Some [], description = Some ''Economist''\<rparr>]"
  let ?t1 = "''Wed, 04 Nov 2026 12:33:00 +0000''"
  let ?t2 = "''Thu, 05 Nov 2026 12:33:00 +0000''"
  have w: "list_all (\<lambda>job. well_formed (item_of job)) ?jobs" by code_simp
  have w1: "list_all xml_char ?t1" by code_simp
  have w2: "list_all xml_char ?t2" by code_simp
  have f1: "last_build_field ?t1
      = ''    <lastBuildDate>Wed, 04 Nov 2026 12:33:00 +0000</lastBuildDate>''" by code_simp
  have f2: "last_build_field ?t2
      = ''    <lastBuildDate>Thu, 05 Nov 2026 12:33:00 +0000</lastBuildDate>''" by code_simp
  from feed_differs_in_last_build_only [of ?jobs] obtain pre post where
    a: "\<forall>now output_file fs.
     generate_rss_feed ?jobs output_file now fs =
       (if list_all xml_char now \<and> list_all (\<lambda>job. well_formed (item_of job)) ?jobs
        then Some (fs(output_file \<mapsto> pre @ last_build_field now @ post))
        else None)"
    by blast
  from a w w1 have 1: "generate_rss_feed ?jobs ''ifad_jobs.xml'' ?t1 Map.empty
      = Some [''ifad_jobs.xml'' \<mapsto> pre @ last_build_field ?t1 @ post]"
    by simp
  from a w w2 have 2: "generate_rss_feed ?jobs ''ifad_jobs.xml'' ?t2 Map.empty
      = Some [''ifad_jobs.xml'' \<mapsto> pre @ last_build_field ?t2 @ post]"
    by simp
  from 1 2 show ?thesis unfolding f1 f2 by blast
qed

section \<open>C9: a run without records\<close>

text \<open>
  C9. When the scraper returns no record, \<^verbatim>\<open>main\<close> ends normally and the files are
  what they were: \<^verbatim>\<open>generate_rss_feed\<close> is not called, and no file is written.
\<close>

theorem no_feed_without_records:
  assumes "scrape_ifad_jobs page = []"
  shows "main page now fs = Some fs"
  using assms by (simp add: main_def)

text \<open>
  The theorem at a page without a job, and at a run whose page could not be loaded.
\<close>

theorem no_feed_without_records_witness:
  "scrape_ifad_jobs (Some [Tag ''div'' [(''id'', ''main'')] [Text ''No openings'']]) = []
   \<and> main (Some [Tag ''div'' [(''id'', ''main'')] [Text ''No openings'']])
        ''Wed, 04 Nov 2026 12:33:00 +0000'' Map.empty = Some Map.empty
   \<and> scrape_ifad_jobs None = []
   \<and> main None ''Wed, 04 Nov 2026 12:33:00 +0000'' Map.empty = Some Map.empty"
proof -
  have h: "scrape_ifad_jobs (Some [Tag ''div'' [(''id'', ''main'')] [Text ''No openings'']]) = []"
    by code_simp
  have n: "scrape_ifad_jobs None = []" by (simp add: scrape_ifad_jobs_def)
  from no_feed_without_records [OF h] no_feed_without_records [OF n] h n
  show ?thesis by blast
qed


end
